theory Spec2Isabelle
  imports Main "HOL-Library.AList" "HOL-Library.Multiset"
begin

section \<open>Strings and the interpreter's tables\<close>

text \<open>
  A Python \<^verbatim>\<open>str\<close> is a sequence of Unicode code points; it is modelled as a list of
  natural numbers. Identifiers that are constants of the source (field names, names of
  environment variables) stay Isabelle strings; \<open>lit\<close> turns an ASCII literal of the source
  into a Python string.
\<close>

type_synonym pystr = "nat list"

definition lit :: "string \<Rightarrow> pystr" where
  "lit s = map of_char s"

text \<open>
  What the script takes from the interpreter and cannot be written out here in full: the
  Unicode tables behind \<^verbatim>\<open>str.lower\<close>, \<^verbatim>\<open>str.isalnum\<close> and the decimal digits
  (\<^verbatim>\<open>int\<close>, \<^verbatim>\<open>\d\<close>), and the limit \<^verbatim>\<open>sys.int_max_str_digits\<close> on the length of a
  string that \<^verbatim>\<open>int\<close> converts (0 when the limit is off or the interpreter has none).
  They are a parameter of every function that uses them.
\<close>

record runtime =
  str_lower :: "pystr \<Rightarrow> pystr"
  isalnum :: "nat \<Rightarrow> bool"
  decimal :: "nat \<Rightarrow> nat option"
  int_max_str_digits :: nat

definition ascii_lower :: "nat \<Rightarrow> nat" where
  "ascii_lower c = (if 65 \<le> c \<and> c \<le> 90 then c + 32 else c)"


definition ascii_digit :: "nat \<Rightarrow> bool" where
  "ascii_digit c = (48 \<le> c \<and> c \<le> 57)"

definition ascii_alnum :: "nat \<Rightarrow> bool" where
  "ascii_alnum c = (ascii_digit c \<or> (65 \<le> c \<and> c \<le> 90) \<or> (97 \<le> c \<and> c \<le> 122))"

definition ascii_decimal :: "nat \<Rightarrow> nat option" where
  "ascii_decimal c = (if ascii_digit c then Some (c - 48) else None)"

definition hangul_syllable :: "nat \<Rightarrow> bool" where
  "hangul_syllable c = (44032 \<le> c \<and> c \<le> 55203)"

definition plain_text :: "pystr \<Rightarrow> bool" where
  "plain_text s = list_all (\<lambda>c. c < 128 \<or> hangul_syllable c) s"

text \<open>\<^verbatim>\<open>Py_UNICODE_ISSPACE\<close>, the characters \<^verbatim>\<open>str.strip()\<close> removes.\<close>

definition is_space :: "nat \<Rightarrow> bool" where
  "is_space c \<longleftrightarrow>
     (9 \<le> c \<and> c \<le> 13) \<or> (28 \<le> c \<and> c \<le> 32) \<or> c = 133 \<or> c = 160 \<or> c = 5760 \<or>
     (8192 \<le> c \<and> c \<le> 8202) \<or> c = 8232 \<or> c = 8233 \<or> c = 8239 \<or> c = 8287 \<or> c = 12288"

text \<open>
  The facts about the tables that the proofs use: on ASCII they are the ASCII tables, the
  Hangul syllables (U+AC00 to U+D7A3, the block of the Korean aliases) are alphanumeric and
  have no case, and a decimal digit has a value below ten and is no space.
\<close>

definition conforms :: "runtime \<Rightarrow> bool" where
  "conforms R \<longleftrightarrow>
     (\<forall>c. c < 128 \<longrightarrow> isalnum R c = ascii_alnum c) \<and>
     (\<forall>c. hangul_syllable c \<longrightarrow> isalnum R c) \<and>
     (\<forall>c. c < 128 \<longrightarrow> decimal R c = ascii_decimal c) \<and>
     (\<forall>c d. decimal R c = Some d \<longrightarrow> d < 10 \<and> \<not> is_space c) \<and>
     (\<forall>s. plain_text s \<longrightarrow> str_lower R s = map ascii_lower s)"

text \<open>The tables cut down to ASCII and the Hangul syllables, with CPython's default limit.\<close>

definition basic_runtime :: runtime where
  "basic_runtime =
     \<lparr> str_lower = map ascii_lower,
       isalnum = (\<lambda>c. ascii_alnum c \<or> hangul_syllable c),
       decimal = ascii_decimal,
       int_max_str_digits = 4300 \<rparr>"

text \<open>\<^verbatim>\<open>str.strip()\<close>\<close>

definition py_strip :: "pystr \<Rightarrow> pystr" where
  "py_strip s = rev (dropWhile is_space (rev (dropWhile is_space s)))"

text \<open>\<^verbatim>\<open>Py_UNICODE_ISLINEBREAK\<close>, the line boundaries of \<^verbatim>\<open>str.splitlines()\<close>.\<close>

definition is_linebreak :: "nat \<Rightarrow> bool" where
  "is_linebreak c \<longleftrightarrow>
     (10 \<le> c \<and> c \<le> 13) \<or> (28 \<le> c \<and> c \<le> 30) \<or> c = 133 \<or> c = 8232 \<or> c = 8233"

fun splitlines_from :: "pystr \<Rightarrow> pystr \<Rightarrow> pystr list" where
  "splitlines_from cur [] = (if cur = [] then [] else [cur])"
| "splitlines_from cur (c # cs) =
     (if c = 13 then
        (case cs of
           c' # cs' \<Rightarrow> if c' = 10 then cur # splitlines_from [] cs' else cur # splitlines_from [] cs
         | [] \<Rightarrow> cur # splitlines_from [] cs)
      else if is_linebreak c then cur # splitlines_from [] cs
      else splitlines_from (cur @ [c]) cs)"

definition splitlines :: "pystr \<Rightarrow> pystr list" where
  "splitlines s = splitlines_from [] s"

section \<open>Errors\<close>

datatype csv_error =
    FieldLimit \<comment> \<open>field larger than field limit (131072)\<close>
  | NewlineInField \<comment> \<open>new-line character seen in unquoted field\<close>

datatype error =
    ConfigError \<comment> \<open>RuntimeError: GOOGLE_SHEET_ID is required ...\<close>
  | FetchError \<comment> \<open>whatever \<^verbatim>\<open>urlopen\<close> or the decoding raises\<close>
  | CsvError csv_error \<comment> \<open>\<^verbatim>\<open>_csv.Error\<close>\<close>
  | HeaderNotFound \<comment> \<open>RuntimeError: CSV header not found.\<close>
  | MissingFields nat "string list" \<comment> \<open>RuntimeError: row n: missing fields (a, b)\<close>
  | InvalidInteger nat string pystr \<comment> \<open>ValueError: row n: invalid integer in 'f' -> v\<close>
  | InvalidDateFormat nat string pystr \<comment> \<open>ValueError: row n: invalid date format in 'f' -> v\<close>
  | InvalidCalendarDate nat string pystr \<comment> \<open>ValueError: row n: invalid calendar date in 'f' -> v\<close>
  | NoValidRows \<comment> \<open>RuntimeError: No valid draw rows found in CSV.\<close>
  | TypeError \<comment> \<open>\<^verbatim>\<open>int(None)\<close>, \<^verbatim>\<open>re.match(pattern, None)\<close>\<close>
  | IndexError \<comment> \<open>\<^verbatim>\<open>draws[-1]\<close> on an empty list\<close>

section \<open>The source URL\<close>

text \<open>
  The environment is a map from variable names to values; \<^verbatim>\<open>os.getenv(name)\<close> is the
  lookup, \<^verbatim>\<open>os.getenv(name, default)\<close> the lookup with a default for an unset variable.
  A value is falsy exactly when it is \<^verbatim>\<open>None\<close> or the empty string, so each test of the
  source is a case on the lookup with a test for the empty string.
\<close>

type_synonym environ = "string \<Rightarrow> pystr option"

definition getenv_default :: "environ \<Rightarrow> string \<Rightarrow> pystr \<Rightarrow> pystr" where
  "getenv_default env name d = (case env name of None \<Rightarrow> d | Some v \<Rightarrow> v)"

definition export_url :: "pystr \<Rightarrow> pystr \<Rightarrow> pystr" where
  "export_url sheet_id gid =
     lit ''https://docs.google.com/spreadsheets/d/'' @ sheet_id @
     lit ''/export?format=csv&gid='' @ gid"

definition get_csv_source_url :: "environ \<Rightarrow> error + pystr" where
  "get_csv_source_url env =
     (let from_sheet_id =
            (case env ''GOOGLE_SHEET_ID'' of
               None \<Rightarrow> Inl ConfigError
             | Some sheet_id \<Rightarrow>
                 if sheet_id = [] then Inl ConfigError
                 else Inr (export_url sheet_id (getenv_default env ''GOOGLE_SHEET_GID'' (lit ''0''))))
      in case env ''GOOGLE_SHEET_CSV_URL'' of
           None \<Rightarrow> from_sheet_id
         | Some custom_url \<Rightarrow> if custom_url = [] then from_sheet_id else Inr custom_url)"

section \<open>Reading the CSV text\<close>

text \<open>
  \<^verbatim>\<open>csv.reader\<close> with the \<^verbatim>\<open>excel\<close> dialect that \<^verbatim>\<open>csv.DictReader\<close> uses by default:
  delimiter \<^verbatim>\<open>,\<close>, quote character \<^verbatim>\<open>"\<close> doubled inside a quoted field, no escape
  character, not strict. It is the state machine of CPython's \<^verbatim>\<open>_csv.c\<close>; the states for an
  escape character are left out, since the dialect has none.
\<close>

datatype parser_state =
  START_RECORD | START_FIELD | IN_FIELD | IN_QUOTED_FIELD | QUOTE_IN_QUOTED_FIELD | EAT_CRNL

record reader =
  r_state :: parser_state
  r_fields :: "pystr list"
  r_field :: pystr

datatype inchar = Ch nat | EOL

definition field_limit :: nat where
  "field_limit = 131072"

definition parse_reset :: reader where
  "parse_reset = \<lparr> r_state = START_RECORD, r_fields = [], r_field = [] \<rparr>"

definition parse_save_field :: "reader \<Rightarrow> reader" where
  "parse_save_field r = r\<lparr> r_fields := r_fields r @ [r_field r], r_field := [] \<rparr>"

definition parse_add_char :: "reader \<Rightarrow> nat \<Rightarrow> csv_error + reader" where
  "parse_add_char r c =
     (if field_limit \<le> length (r_field r) then Inl FieldLimit
      else Inr (r\<lparr> r_field := r_field r @ [c] \<rparr>))"

definition end_of_line :: "inchar \<Rightarrow> bool" where
  "end_of_line c \<longleftrightarrow> c = Ch 10 \<or> c = Ch 13 \<or> c = EOL"

definition after_line :: "inchar \<Rightarrow> parser_state" where
  "after_line c = (if c = EOL then START_RECORD else EAT_CRNL)"

definition set_state :: "parser_state \<Rightarrow> csv_error + reader \<Rightarrow> csv_error + reader" where
  "set_state st res = (case res of Inl e \<Rightarrow> Inl e | Inr r \<Rightarrow> Inr (r\<lparr> r_state := st \<rparr>))"

text \<open>The case \<^verbatim>\<open>START_FIELD\<close>, into which the case \<^verbatim>\<open>START_RECORD\<close> falls through.\<close>

definition start_field :: "reader \<Rightarrow> inchar \<Rightarrow> csv_error + reader" where
  "start_field r c =
     (if end_of_line c then Inr ((parse_save_field r)\<lparr> r_state := after_line c \<rparr>)
      else if c = Ch 34 then Inr (r\<lparr> r_state := IN_QUOTED_FIELD \<rparr>)
      else if c = Ch 44 then Inr (parse_save_field r)
      else (case c of Ch x \<Rightarrow> set_state IN_FIELD (parse_add_char r x) | EOL \<Rightarrow> Inr r))"

definition parse_process_char :: "reader \<Rightarrow> inchar \<Rightarrow> csv_error + reader" where
  "parse_process_char r c =
     (case r_state r of
        START_RECORD \<Rightarrow>
          if c = EOL then Inr r
          else if c = Ch 10 \<or> c = Ch 13 then Inr (r\<lparr> r_state := EAT_CRNL \<rparr>)
          else start_field (r\<lparr> r_state := START_FIELD \<rparr>) c
      | START_FIELD \<Rightarrow> start_field r c
      | IN_FIELD \<Rightarrow>
          if end_of_line c then Inr ((parse_save_field r)\<lparr> r_state := after_line c \<rparr>)
          else if c = Ch 44 then Inr ((parse_save_field r)\<lparr> r_state := START_FIELD \<rparr>)
          else (case c of Ch x \<Rightarrow> parse_add_char r x | EOL \<Rightarrow> Inr r)
      | IN_QUOTED_FIELD \<Rightarrow>
          if c = EOL then Inr r
          else if c = Ch 34 then Inr (r\<lparr> r_state := QUOTE_IN_QUOTED_FIELD \<rparr>)
          else (case c of Ch x \<Rightarrow> parse_add_char r x | EOL \<Rightarrow> Inr r)
      | QUOTE_IN_QUOTED_FIELD \<Rightarrow>
          if c = Ch 34 then set_state IN_QUOTED_FIELD (parse_add_char r 34)
          else if c = Ch 44 then Inr ((parse_save_field r)\<lparr> r_state := START_FIELD \<rparr>)
          else if end_of_line c then Inr ((parse_save_field r)\<lparr> r_state := after_line c \<rparr>)
          else (case c of Ch x \<Rightarrow> set_state IN_FIELD (parse_add_char r x) | EOL \<Rightarrow> Inr r)
      | EAT_CRNL \<Rightarrow>
          if c = Ch 10 \<or> c = Ch 13 then Inr r
          else if c = EOL then Inr (r\<lparr> r_state := START_RECORD \<rparr>)
          else Inl NewlineInField)"

text \<open>One line of the input: its characters, then the end-of-line mark.\<close>

fun process_line :: "reader \<Rightarrow> pystr \<Rightarrow> csv_error + reader" where
  "process_line r [] = parse_process_char r EOL"
| "process_line r (c # cs) =
     (case parse_process_char r (Ch c) of Inl e \<Rightarrow> Inl e | Inr r' \<Rightarrow> process_line r' cs)"

text \<open>
  The records that successive calls of the reader's \<^verbatim>\<open>__next__\<close> return, in order. Each call
  resets the parser and takes lines until the parser is back at \<^verbatim>\<open>START_RECORD\<close>; when the
  lines run out inside a record, the pending field is saved and the record returned. An
  error is raised by the call that meets it, so it ends the sequence.
\<close>

fun reader_records :: "reader \<Rightarrow> pystr list \<Rightarrow> (csv_error + pystr list) list" where
  "reader_records r [] =
     (if r_field r \<noteq> [] \<or> r_state r = IN_QUOTED_FIELD then [Inr (r_fields (parse_save_field r))]
      else [])"
| "reader_records r (line # lines) =
     (case process_line r line of
        Inl e \<Rightarrow> [Inl e]
      | Inr r' \<Rightarrow>
          if r_state r' \<noteq> START_RECORD then reader_records r' lines
          else Inr (r_fields r') # reader_records parse_reset lines)"

definition csv_reader :: "pystr list \<Rightarrow> (csv_error + pystr list) list" where
  "csv_reader lines = reader_records parse_reset lines"

text \<open>
  A row of \<^verbatim>\<open>csv.DictReader\<close>: the dictionary from the field names to the cells, in
  insertion order, a cell being \<^verbatim>\<open>None\<close> (the \<^verbatim>\<open>restval\<close>) where the row is shorter than the
  header; and, where the row is longer, the surplus cells, which the dictionary holds under
  the key \<^verbatim>\<open>None\<close> (the \<^verbatim>\<open>restkey\<close>).
\<close>

record raw_row =
  cells :: "(pystr \<times> pystr option) list"
  rest :: "pystr list option"

definition dict_zip :: "pystr list \<Rightarrow> pystr list \<Rightarrow> (pystr \<times> pystr option) list" where
  "dict_zip fieldnames row = fold (\<lambda>(k, v) d. AList.update k (Some v) d) (zip fieldnames row) []"

definition dict_row :: "pystr list \<Rightarrow> pystr list \<Rightarrow> raw_row" where
  "dict_row fieldnames row =
     (let d = dict_zip fieldnames row; lf = length fieldnames; lr = length row
      in if lf < lr then \<lparr> cells = d, rest = Some (drop lf row) \<rparr>
         else if lr < lf then
           \<lparr> cells = fold (\<lambda>key d. AList.update key None d) (drop lr fieldnames) d, rest = None \<rparr>
         else \<lparr> cells = d, rest = None \<rparr>)"

text \<open>The rows the \<^verbatim>\<open>DictReader\<close> yields after the header: it passes over empty records.\<close>

fun dict_rows :: "pystr list \<Rightarrow> (csv_error + pystr list) list \<Rightarrow> (csv_error + raw_row) list" where
  "dict_rows fieldnames [] = []"
| "dict_rows fieldnames (Inl e # records) = [Inl e]"
| "dict_rows fieldnames (Inr row # records) =
     (if row = [] then dict_rows fieldnames records
      else Inr (dict_row fieldnames row) # dict_rows fieldnames records)"

section \<open>Normalising a row\<close>

definition normalize_key :: "runtime \<Rightarrow> pystr \<Rightarrow> pystr" where
  "normalize_key R key = filter (isalnum R) (str_lower R key)"

definition FIELD_ALIASES :: "(string \<times> pystr list) list" where
  "FIELD_ALIASES =
     [(''round'', [lit ''round'', lit ''drawno'', lit ''drawnum'', lit ''draw'', [54924, 52264]]),
      (''date'', [lit ''date'', lit ''drawdate'', [52628, 52392, 51068]]),
      (''num1'', [lit ''num1'', lit ''n1'', lit ''no1'', [48264, 54840, 49]]),
      (''num2'', [lit ''num2'', lit ''n2'', lit ''no2'', [48264, 54840, 50]]),
      (''num3'', [lit ''num3'', lit ''n3'', lit ''no3'', [48264, 54840, 51]]),
      (''num4'', [lit ''num4'', lit ''n4'', lit ''no4'', [48264, 54840, 52]]),
      (''num5'', [lit ''num5'', lit ''n5'', lit ''no5'', [48264, 54840, 53]]),
      (''num6'', [lit ''num6'', lit ''n6'', lit ''no6'', [48264, 54840, 54]]),
      (''bonus'', [lit ''bonusnumber'', lit ''bonus'', [48372, 45320, 49828],
                  [48372, 45320, 49828, 48264, 54840]])]"

text \<open>\<^verbatim>\<open>FIELD_ALIASES[name]\<close>; the source only looks up the nine names of the table.\<close>

definition aliases :: "string \<Rightarrow> pystr list" where
  "aliases name = (case map_of FIELD_ALIASES name of Some a \<Rightarrow> a | None \<Rightarrow> [])"

type_synonym row = "(pystr \<times> pystr) list"

fun pick_value :: "row \<Rightarrow> pystr list \<Rightarrow> pystr option" where
  "pick_value row [] = None"
| "pick_value row (alias # others) =
     (case map_of row alias of
        Some v \<Rightarrow> if v \<noteq> [] then Some v else pick_value row others
      | None \<Rightarrow> pick_value row others)"

text \<open>
  The dictionary comprehension of \<^verbatim>\<open>parse_draws\<close>: the items of the raw row in order, those
  with a falsy key (the empty header, the \<^verbatim>\<open>restkey\<close>) left out, a later item replacing the
  value of an earlier one with the same normalised key.
\<close>

definition normalize_row :: "runtime \<Rightarrow> raw_row \<Rightarrow> row" where
  "normalize_row R raw_row =
     fold (\<lambda>(key, value) row.
             if key = [] then row
             else AList.update (normalize_key R key)
                    (py_strip (case value of None \<Rightarrow> [] | Some v \<Rightarrow> v)) row)
          (cells raw_row) []"

section \<open>Integers\<close>

text \<open>
  \<^verbatim>\<open>int(value)\<close> on a string, as CPython's \<^verbatim>\<open>PyLong_FromUnicodeObject\<close> does it. The
  string is first brought to ASCII: a character below 127 stays, another space becomes a
  blank, another decimal digit its ASCII digit, and anything else ends the buffer with a
  question mark.
\<close>

fun transform_decimal_and_space :: "runtime \<Rightarrow> pystr \<Rightarrow> pystr" where
  "transform_decimal_and_space R [] = []"
| "transform_decimal_and_space R (ch # s) =
     (if ch < 127 then ch # transform_decimal_and_space R s
      else if is_space ch then 32 # transform_decimal_and_space R s
      else (case decimal R ch of
              None \<Rightarrow> [63]
            | Some d \<Rightarrow> (48 + d) # transform_decimal_and_space R s))"

definition c_isspace :: "nat \<Rightarrow> bool" where
  "c_isspace c \<longleftrightarrow> c = 32 \<or> (9 \<le> c \<and> c \<le> 13)"

text \<open>
  The scan over digits and underscores: \<open>prev\<close> is the character before, two underscores in
  a row or an underscore at the end are a syntax error. It returns the digits it passed and
  the text after them.
\<close>

fun scan_digits :: "nat \<Rightarrow> pystr \<Rightarrow> (pystr \<times> pystr) option" where
  "scan_digits prev [] = (if prev = 95 then None else Some ([], []))"
| "scan_digits prev (c # cs) =
     (if c = 95 then (if prev = 95 then None else scan_digits c cs)
      else if ascii_digit c then
        (case scan_digits c cs of None \<Rightarrow> None | Some (ds, r) \<Rightarrow> Some (c # ds, r))
      else if prev = 95 then None
      else Some ([], c # cs))"

definition digits_value :: "pystr \<Rightarrow> nat" where
  "digits_value ds = foldl (\<lambda>acc c. 10 * acc + (c - 48)) 0 ds"

text \<open>
  \<^verbatim>\<open>PyLong_FromString\<close> in base 10, on the text up to the first NUL: blanks, a sign, no
  underscore first, the digits, the limit on their number (tested above 640 digits only),
  at least one digit, blanks, and nothing more.
\<close>

definition long_from_string :: "runtime \<Rightarrow> pystr \<Rightarrow> int option" where
  "long_from_string R str =
     (let s1 = dropWhile c_isspace str;
          negative = (case s1 of c # _ \<Rightarrow> c = 45 | [] \<Rightarrow> False);
          s2 = (case s1 of c # s \<Rightarrow> if c = 43 \<or> c = 45 then s else s1 | [] \<Rightarrow> s1)
      in if (case s2 of c # _ \<Rightarrow> c = 95 | [] \<Rightarrow> False) then None
         else (case scan_digits 0 s2 of
                 None \<Rightarrow> None
               | Some (ds, r) \<Rightarrow>
                   if 640 < length ds \<and> 0 < int_max_str_digits R \<and> int_max_str_digits R < length ds
                   then None
                   else if ds = [] then None
                   else if dropWhile c_isspace r \<noteq> [] then None
                   else Some (if negative then - int (digits_value ds) else int (digits_value ds))))"

definition py_int :: "runtime \<Rightarrow> pystr \<Rightarrow> int option" where
  "py_int R u =
     (let buffer = transform_decimal_and_space R u;
          c_string = takeWhile (\<lambda>c. c \<noteq> 0) buffer
      in case long_from_string R c_string of
           None \<Rightarrow> None
         | Some n \<Rightarrow> if length c_string = length buffer then Some n else None)"

text \<open>
  \<^verbatim>\<open>parse_int\<close>: the \<^verbatim>\<open>ValueError\<close> of \<^verbatim>\<open>int\<close> becomes the error of the row. A value that
  is \<^verbatim>\<open>None\<close> would raise \<^verbatim>\<open>TypeError\<close>, which \<^verbatim>\<open>parse_int\<close> does not catch.
\<close>

definition parse_int :: "runtime \<Rightarrow> pystr option \<Rightarrow> string \<Rightarrow> nat \<Rightarrow> error + int" where
  "parse_int R value field_name row_num =
     (case value of
        None \<Rightarrow> Inl TypeError
      | Some v \<Rightarrow>
          (case py_int R v of
             Some n \<Rightarrow> Inr n
           | None \<Rightarrow> Inl (InvalidInteger row_num field_name v)))"

section \<open>Dates\<close>

text \<open>
  The regular expressions of the two date checks, and a matcher for them that backtracks as
  \<^verbatim>\<open>re\<close> does: \<open>re_run\<close> returns the ways a pattern matches at the current position, the
  one \<^verbatim>\<open>re\<close> finds first at the head. A way is the position reached, the text left, and the
  named groups. \<^verbatim>\<open>\d\<close> is a Unicode decimal digit; \<^verbatim>\<open>$\<close> matches at the end and before a
  newline that ends the text.
\<close>

datatype regex =
    Empty | Fail | Caret | Dollar | Digit | Lit nat | Range nat nat
  | Seq regex regex | Or regex regex | Group string regex

type_synonym match_state = "nat \<times> pystr \<times> (string \<times> pystr) list"

fun re_run :: "runtime \<Rightarrow> regex \<Rightarrow> match_state \<Rightarrow> match_state list" where
  "re_run R Empty st = [st]"
| "re_run R Fail st = []"
| "re_run R Caret (n, s, g) = (if n = 0 then [(n, s, g)] else [])"
| "re_run R Dollar (n, s, g) = (if s = [] \<or> s = [10] then [(n, s, g)] else [])"
| "re_run R Digit (n, s, g) =
     (case s of c # cs \<Rightarrow> if decimal R c \<noteq> None then [(Suc n, cs, g)] else [] | [] \<Rightarrow> [])"
| "re_run R (Lit a) (n, s, g) =
     (case s of c # cs \<Rightarrow> if c = a then [(Suc n, cs, g)] else [] | [] \<Rightarrow> [])"
| "re_run R (Range lo hi) (n, s, g) =
     (case s of c # cs \<Rightarrow> if lo \<le> c \<and> c \<le> hi then [(Suc n, cs, g)] else [] | [] \<Rightarrow> [])"
| "re_run R (Seq r1 r2) st = concat (map (re_run R r2) (re_run R r1 st))"
| "re_run R (Or r1 r2) st = re_run R r1 st @ re_run R r2 st"
| "re_run R (Group name r) (n, s, g) =
     map (\<lambda>(n', s', g'). (n', s', (name, take (n' - n) s) # g')) (re_run R r (n, s, g))"

text \<open>A sequence and an alternation of several patterns, and the repetition \<^verbatim>\<open>r{k}\<close>.\<close>

definition cat :: "regex list \<Rightarrow> regex" where
  "cat rs = foldr Seq rs Empty"

definition alt :: "regex list \<Rightarrow> regex" where
  "alt rs = foldr Or rs Fail"

definition rep :: "nat \<Rightarrow> regex \<Rightarrow> regex" where
  "rep k r = cat (replicate k r)"

text \<open>\<^verbatim>\<open>pattern.match(string)\<close>: the end of the match and its groups, or \<^verbatim>\<open>None\<close>.\<close>

definition re_match :: "runtime \<Rightarrow> regex \<Rightarrow> pystr \<Rightarrow> (nat \<times> (string \<times> pystr) list) option" where
  "re_match R r s = (case re_run R r (0, s, []) of [] \<Rightarrow> None | (n, _, g) # _ \<Rightarrow> Some (n, g))"

text \<open>\<^verbatim>\<open>^\d{4}\.\d{2}\.\d{2}$\<close>\<close>

definition date_pattern :: regex where
  "date_pattern = cat [Caret, rep 4 Digit, Lit 46, rep 2 Digit, Lit 46, rep 2 Digit, Dollar]"

text \<open>
  The pattern \<^verbatim>\<open>_strptime\<close> compiles for the format \<^verbatim>\<open>%Y.%m.%d\<close>:
  \<^verbatim>\<open>(?P<Y>\d\d\d\d)\.(?P<m>1[0-2]|0[1-9]|[1-9])\.(?P<d>3[0-1]|[1-2]\d|0[1-9]|[1-9]| [1-9])\<close>.
  It is compiled to ignore case, which changes nothing for digits, the dot and the blank.
\<close>

definition strptime_pattern :: regex where
  "strptime_pattern =
     cat [Group ''Y'' (cat [Digit, Digit, Digit, Digit]),
          Lit 46,
          Group ''m'' (alt [cat [Lit 49, Range 48 50], cat [Lit 48, Range 49 57], Range 49 57]),
          Lit 46,
          Group ''d'' (alt [cat [Lit 51, Range 48 49], cat [Range 49 50, Digit],
                            cat [Lit 48, Range 49 57], Range 49 57, cat [Lit 32, Range 49 57]])]"

text \<open>The date checks of \<^verbatim>\<open>datetime\<close>: years 1 to 9999, and the days each month has.\<close>

definition is_leap :: "int \<Rightarrow> bool" where
  "is_leap year \<longleftrightarrow> year mod 4 = 0 \<and> (year mod 100 \<noteq> 0 \<or> year mod 400 = 0)"

definition DAYS_IN_MONTH :: "int list" where
  "DAYS_IN_MONTH = [-1, 31, 28, 31, 30, 31, 30, 31, 31, 30, 31, 30, 31]"

definition days_in_month :: "int \<Rightarrow> int \<Rightarrow> int" where
  "days_in_month year month =
     (if month = 2 \<and> is_leap year then 29 else DAYS_IN_MONTH ! nat month)"

definition check_date_fields :: "int \<Rightarrow> int \<Rightarrow> int \<Rightarrow> bool" where
  "check_date_fields year month day \<longleftrightarrow>
     1 \<le> year \<and> year \<le> 9999 \<and> 1 \<le> month \<and> month \<le> 12 \<and>
     1 \<le> day \<and> day \<le> days_in_month year month"

text \<open>
  \<^verbatim>\<open>datetime.strptime(value, "%Y.%m.%d")\<close>: the pattern has to match, and to the end of the
  text; the groups are converted with \<^verbatim>\<open>int\<close>, and the date has to exist. Every failure is
  a \<^verbatim>\<open>ValueError\<close>, here \<open>None\<close>.
\<close>

definition strptime :: "runtime \<Rightarrow> pystr \<Rightarrow> (int \<times> int \<times> int) option" where
  "strptime R data_string =
     (case re_match R strptime_pattern data_string of
        None \<Rightarrow> None
      | Some (end_pos, found) \<Rightarrow>
          if length data_string \<noteq> end_pos then None
          else (case (map_of found ''Y'', map_of found ''m'', map_of found ''d'') of
                  (Some y, Some m, Some d) \<Rightarrow>
                    (case (py_int R y, py_int R m, py_int R d) of
                       (Some year, Some month, Some day) \<Rightarrow>
                         if check_date_fields year month day then Some (year, month, day)
                         else None
                     | _ \<Rightarrow> None)
                | _ \<Rightarrow> None))"

definition parse_date :: "runtime \<Rightarrow> pystr option \<Rightarrow> string \<Rightarrow> nat \<Rightarrow> error + pystr" where
  "parse_date R value field_name row_num =
     (case value of
        None \<Rightarrow> Inl TypeError
      | Some v \<Rightarrow>
          if re_match R date_pattern v = None then Inl (InvalidDateFormat row_num field_name v)
          else (case strptime R v of
                  Some _ \<Rightarrow> Inr v
                | None \<Rightarrow> Inl (InvalidCalendarDate row_num field_name v)))"

section \<open>Parsing the draws\<close>

record draw =
  round_no :: int
  num1 :: int
  num2 :: int
  num3 :: int
  num4 :: int
  num5 :: int
  num6 :: int
  bonus :: int
  date :: pystr

text \<open>\<^verbatim>\<open>str(n)\<close> for a number that is not negative, and for an integer.\<close>

fun str_nat :: "nat \<Rightarrow> pystr" where
  "str_nat n = (if n < 10 then [48 + n] else str_nat (n div 10) @ [48 + n mod 10])"

declare str_nat.simps [simp del]

definition str_int :: "int \<Rightarrow> pystr" where
  "str_int i = (if i < 0 then 45 # str_nat (nat (- i)) else str_nat (nat i))"

definition num_name :: "nat \<Rightarrow> string" where
  "num_name i = ''num'' @ map char_of (str_nat i)"

definition falsy :: "pystr option \<Rightarrow> bool" where
  "falsy v \<longleftrightarrow> v = None \<or> v = Some []"

definition and_then :: "error + 'a \<Rightarrow> ('a \<Rightarrow> error + 'b) \<Rightarrow> error + 'b" where
  "and_then x f = (case x of Inl e \<Rightarrow> Inl e | Inr v \<Rightarrow> f v)"

text \<open>
  The body of the loop of \<^verbatim>\<open>parse_draws\<close> for one row: an error, \<open>None\<close> for a row that is
  passed over, or the draw. The items of the draw are evaluated in the order of the source,
  so the first one that fails gives the error.
\<close>

definition parse_row :: "runtime \<Rightarrow> nat \<Rightarrow> raw_row \<Rightarrow> error + draw option" where
  "parse_row R row_num raw_row =
     (let row = normalize_row R raw_row;
          round_raw = pick_value row (aliases ''round'')
      in if falsy round_raw then Inr None
         else
           let draw_date = pick_value row (aliases ''date'');
               bonus_raw = pick_value row (aliases ''bonus'');
               n_values = map (\<lambda>i. pick_value row (aliases (num_name i))) [1..<7];
               missing = (if falsy draw_date then [''date''] else []) @
                         (if falsy bonus_raw then [''bonus''] else []) @
                         (if list_ex falsy n_values then [''num1~num6''] else [])
           in if missing \<noteq> [] then Inl (MissingFields row_num missing)
              else
                and_then (parse_int R round_raw ''round'' row_num) (\<lambda>v_round.
                and_then (parse_int R (n_values ! 0) ''num1'' row_num) (\<lambda>v_num1.
                and_then (parse_int R (n_values ! 1) ''num2'' row_num) (\<lambda>v_num2.
                and_then (parse_int R (n_values ! 2) ''num3'' row_num) (\<lambda>v_num3.
                and_then (parse_int R (n_values ! 3) ''num4'' row_num) (\<lambda>v_num4.
                and_then (parse_int R (n_values ! 4) ''num5'' row_num) (\<lambda>v_num5.
                and_then (parse_int R (n_values ! 5) ''num6'' row_num) (\<lambda>v_num6.
                and_then (parse_int R bonus_raw ''bonus'' row_num) (\<lambda>v_bonus.
                and_then (parse_date R draw_date ''date'' row_num) (\<lambda>v_date.
                Inr (Some \<lparr> round_no = v_round, num1 = v_num1, num2 = v_num2, num3 = v_num3,
                            num4 = v_num4, num5 = v_num5, num6 = v_num6, bonus = v_bonus,
                            date = v_date \<rparr>)))))))))))"

text \<open>
  The loop over \<^verbatim>\<open>enumerate(reader, start=2)\<close>: \<open>row_num\<close> is the number of the next row,
  \<open>draws\<close> the list built so far.
\<close>

fun rows_loop :: "runtime \<Rightarrow> nat \<Rightarrow> (csv_error + raw_row) list \<Rightarrow> draw list \<Rightarrow> error + draw list" where
  "rows_loop R row_num [] draws = Inr draws"
| "rows_loop R row_num (Inl e # rows) draws = Inl (CsvError e)"
| "rows_loop R row_num (Inr raw_row # rows) draws =
     (case parse_row R row_num raw_row of
        Inl e \<Rightarrow> Inl e
      | Inr None \<Rightarrow> rows_loop R (Suc row_num) rows draws
      | Inr (Some d) \<Rightarrow> rows_loop R (Suc row_num) rows (draws @ [d]))"

text \<open>
  \<open>collect_draws\<close> is \<^verbatim>\<open>parse_draws\<close> up to the end of its loop: the header is the first
  record of the reader, and a missing or empty one is an error.
\<close>

definition collect_draws :: "runtime \<Rightarrow> pystr \<Rightarrow> error + draw list" where
  "collect_draws R csv_text =
     (case csv_reader (splitlines csv_text) of
        [] \<Rightarrow> Inl HeaderNotFound
      | Inl e # records \<Rightarrow> Inl (CsvError e)
      | Inr fieldnames # records \<Rightarrow>
          if fieldnames = [] then Inl HeaderNotFound
          else rows_loop R 2 (dict_rows fieldnames records) [])"

definition parse_draws :: "runtime \<Rightarrow> pystr \<Rightarrow> error + draw list" where
  "parse_draws R csv_text =
     (case collect_draws R csv_text of
        Inl e \<Rightarrow> Inl e
      | Inr draws \<Rightarrow> if draws = [] then Inl NoValidRows else Inr (sort_key round_no draws))"

section \<open>Writing the latest draw\<close>

text \<open>
  \<^verbatim>\<open>json.dumps(data, ensure_ascii=False, indent=2)\<close> for a dictionary whose values are
  integers and strings, as the draw is. The files are a map from paths to their text.
\<close>

datatype json = JInt int | JStr pystr

definition draw_items :: "draw \<Rightarrow> (pystr \<times> json) list" where
  "draw_items d =
     [(lit ''round'', JInt (round_no d)), (lit ''num1'', JInt (num1 d)),
      (lit ''num2'', JInt (num2 d)), (lit ''num3'', JInt (num3 d)),
      (lit ''num4'', JInt (num4 d)), (lit ''num5'', JInt (num5 d)),
      (lit ''num6'', JInt (num6 d)), (lit ''bonus'', JInt (bonus d)),
      (lit ''date'', JStr (date d))]"

definition hex_digit :: "nat \<Rightarrow> nat" where
  "hex_digit d = (if d < 10 then 48 + d else 87 + d)"

definition escape_char :: "nat \<Rightarrow> pystr" where
  "escape_char c =
     (if c = 92 then [92, 92] else if c = 34 then [92, 34]
      else if c = 8 then [92, 98] else if c = 12 then [92, 102]
      else if c = 10 then [92, 110] else if c = 13 then [92, 114]
      else if c = 9 then [92, 116]
      else if c < 32 then [92, 117, 48, 48, hex_digit (c div 16), hex_digit (c mod 16)]
      else [c])"

definition encode_basestring :: "pystr \<Rightarrow> pystr" where
  "encode_basestring s = [34] @ concat (map escape_char s) @ [34]"

definition encode_value :: "json \<Rightarrow> pystr" where
  "encode_value v = (case v of JInt i \<Rightarrow> str_int i | JStr s \<Rightarrow> encode_basestring s)"

fun join :: "pystr \<Rightarrow> pystr list \<Rightarrow> pystr" where
  "join sep [] = []"
| "join sep [x] = x"
| "join sep (x # y # ys) = x @ sep @ join sep (y # ys)"

definition json_dumps :: "(pystr \<times> json) list \<Rightarrow> pystr" where
  "json_dumps d =
     (if d = [] then lit ''{}''
      else lit ''{'' @ [10, 32, 32] @
           join [44, 10, 32, 32] (map (\<lambda>(k, v). encode_basestring k @ lit '': '' @ encode_value v) d) @
           [10] @ lit ''}'')"

type_synonym files = "string \<Rightarrow> pystr option"

text \<open>The parent of the path is the working directory, so there is no directory to make.\<close>

definition write_json :: "string \<Rightarrow> (pystr \<times> json) list \<Rightarrow> files \<Rightarrow> files" where
  "write_json path data fs = fs(path := Some (json_dumps data @ [10]))"

definition write_outputs :: "draw list \<Rightarrow> files \<Rightarrow> error + files" where
  "write_outputs draws fs =
     (if draws = [] then Inl IndexError
      else Inr (write_json ''lotto.json'' (draw_items (last draws)) fs))"

text \<open>
  \<^verbatim>\<open>main\<close>, with the environment, the fetch of the text behind a URL and the files as
  parameters; it returns the files and the line it prints.
\<close>

definition main :: "runtime \<Rightarrow> environ \<Rightarrow> (pystr \<Rightarrow> error + pystr) \<Rightarrow> files \<Rightarrow> error + files \<times> pystr" where
  "main R env fetch_csv_text fs =
     and_then (get_csv_source_url env) (\<lambda>source_url.
     and_then (fetch_csv_text source_url) (\<lambda>csv_text.
     and_then (parse_draws R csv_text) (\<lambda>draws.
     and_then (write_outputs draws fs) (\<lambda>fs'.
     Inr (fs', lit ''Synced '' @ str_nat (length draws) @ lit '' draw(s) from: '' @ source_url @
               lit '' -> lotto.json'')))))"

section \<open>Notions of the statements\<close>

text \<open>
  \<open>all_blank\<close>: every row is a row of the reader and has no round value. \<open>rows_ok\<close>: no row
  of the list fails, the first one being row \<open>row_num\<close>. \<open>error_row\<close>: the row number that
  the message of a row-level error names.
\<close>

definition all_blank :: "runtime \<Rightarrow> (csv_error + raw_row) list \<Rightarrow> bool" where
  "all_blank R rows =
     list_all (\<lambda>r. case r of Inl e \<Rightarrow> False
                    | Inr raw_row \<Rightarrow> falsy (pick_value (normalize_row R raw_row) (aliases ''round''))) rows"

fun rows_ok :: "runtime \<Rightarrow> nat \<Rightarrow> (csv_error + raw_row) list \<Rightarrow> bool" where
  "rows_ok R row_num [] = True"
| "rows_ok R row_num (Inl e # rows) = False"
| "rows_ok R row_num (Inr raw_row # rows) =
     (case parse_row R row_num raw_row of Inl e \<Rightarrow> False | Inr d \<Rightarrow> rows_ok R (Suc row_num) rows)"

fun error_row :: "error \<Rightarrow> nat option" where
  "error_row (MissingFields n fs) = Some n"
| "error_row (InvalidInteger n f v) = Some n"
| "error_row (InvalidDateFormat n f v) = Some n"
| "error_row (InvalidCalendarDate n f v) = Some n"
| "error_row e = None"

text \<open>
  The numbering of the rows as C9 states it, counted from the row after the header: the data
  row at index \<open>i\<close> (from 0) is row \<open>i + 1\<close>.
\<close>

definition claimed_row_number :: "nat \<Rightarrow> nat" where
  "claimed_row_number i = i + 1"

section \<open>Inputs of the examples\<close>

definition env_empty_url :: environ where
  "env_empty_url =
     (\<lambda>_. None)(''GOOGLE_SHEET_CSV_URL'' := Some [], ''GOOGLE_SHEET_ID'' := Some (lit ''abc''))"


text \<open>The CSV text of the example, the two draws in it, and the text of the file written.\<close>

definition example_csv :: pystr where
  "example_csv =
     lit ''round,date,num1,num2,num3,num4,num5,num6,bonusNumber'' @ [10] @
     lit ''1,2024.01.06,1,2,3,4,5,6,7'' @ [10] @
     lit ''2,2024.01.13,8,9,10,11,12,13,14'' @ [10]"

definition example_header :: "pystr list" where
  "example_header =
     map lit [''round'', ''date'', ''num1'', ''num2'', ''num3'', ''num4'', ''num5'', ''num6'',
              ''bonusNumber'']"

definition example_first :: draw where
  "example_first =
     \<lparr> round_no = 1, num1 = 1, num2 = 2, num3 = 3, num4 = 4, num5 = 5, num6 = 6, bonus = 7,
       date = lit ''2024.01.06'' \<rparr>"

definition example_latest :: draw where
  "example_latest =
     \<lparr> round_no = 2, num1 = 8, num2 = 9, num3 = 10, num4 = 11, num5 = 12, num6 = 13, bonus = 14,
       date = lit ''2024.01.13'' \<rparr>"

definition example_json :: pystr where
  "example_json =
     lit ''{'' @ [10] @
     lit ''  '' @ [34] @ lit ''round'' @ [34] @ lit '': 2,'' @ [10] @
     lit ''  '' @ [34] @ lit ''num1'' @ [34] @ lit '': 8,'' @ [10] @
     lit ''  '' @ [34] @ lit ''num2'' @ [34] @ lit '': 9,'' @ [10] @
     lit ''  '' @ [34] @ lit ''num3'' @ [34] @ lit '': 10,'' @ [10] @
     lit ''  '' @ [34] @ lit ''num4'' @ [34] @ lit '': 11,'' @ [10] @
     lit ''  '' @ [34] @ lit ''num5'' @ [34] @ lit '': 12,'' @ [10] @
     lit ''  '' @ [34] @ lit ''num6'' @ [34] @ lit '': 13,'' @ [10] @
     lit ''  '' @ [34] @ lit ''bonus'' @ [34] @ lit '': 14,'' @ [10] @
     lit ''  '' @ [34] @ lit ''date'' @ [34] @ lit '': '' @ [34] @ lit ''2024.01.13'' @ [34] @ [10] @
     lit ''}'' @ [10]"

text \<open>
  A sheet with other header spellings, Windows line ends, the later round first and a row of
  empty cells between the two.
\<close>

definition unsorted_csv :: pystr where
  "unsorted_csv =
     lit ''Draw No,DATE,n1,n2,n3,n4,n5,n6,bonus'' @ [13, 10] @
     lit ''7,2024.02.17,1,2,3,4,5,6,7'' @ [13, 10] @
     lit '',,,,,,,,'' @ [13, 10] @
     lit ''5,2024.02.03,8,9,10,11,12,13,14'' @ [13, 10]"

definition unsorted_draws :: "draw list" where
  "unsorted_draws =
     [\<lparr> round_no = 7, num1 = 1, num2 = 2, num3 = 3, num4 = 4, num5 = 5, num6 = 6, bonus = 7,
        date = lit ''2024.02.17'' \<rparr>,
      \<lparr> round_no = 5, num1 = 8, num2 = 9, num3 = 10, num4 = 11, num5 = 12, num6 = 13, bonus = 14,
        date = lit ''2024.02.03'' \<rparr>]"

text \<open>A row with a blank round cell and malformed cells beside it; a sheet of such rows.\<close>

definition blank_round_row :: raw_row where
  "blank_round_row =
     \<lparr> cells = [(lit ''Round'', Some (lit ''   '')), (lit ''date'', Some (lit ''13/01/2024'')),
                (lit ''num1'', Some (lit ''x'')), (lit ''bonus'', None)],
       rest = Some [lit ''surplus''] \<rparr>"

definition blank_rounds_csv :: pystr where
  "blank_rounds_csv = lit ''round,date'' @ [10] @ lit '' ,2024.01.06'' @ [10] @ lit '',x'' @ [10]"

text \<open>
  A sheet whose only data row has an empty bonus cell, and one with a row of empty cells before
  that row.
\<close>

definition no_bonus_csv :: pystr where
  "no_bonus_csv =
     lit ''round,date,n1,n2,n3,n4,n5,n6,bonus'' @ [10] @ lit ''3,2024.01.20,1,2,3,4,5,6,'' @ [10]"

definition no_bonus_header :: "pystr list" where
  "no_bonus_header = map lit [''round'', ''date'', ''n1'', ''n2'', ''n3'', ''n4'', ''n5'', ''n6'', ''bonus'']"

definition no_bonus_row :: raw_row where
  "no_bonus_row =
     \<lparr> cells = zip no_bonus_header
                 (map (Some \<circ> lit) [''3'', ''2024.01.20'', ''1'', ''2'', ''3'', ''4'', ''5'', ''6'', '''']),
       rest = None \<rparr>"

definition blank_cells_row :: raw_row where
  "blank_cells_row =
     \<lparr> cells = zip no_bonus_header (map (Some \<circ> lit) [[], [], [], [], [], [], [], [], [] ]),
       rest = None \<rparr>"

definition blank_then_bad_csv :: pystr where
  "blank_then_bad_csv =
     lit ''round,date,n1,n2,n3,n4,n5,n6,bonus'' @ [10] @ lit '',,,,,,,,'' @ [10] @
     lit ''3,2024.01.20,1,2,3,4,5,6,'' @ [10]"

section \<open>Properties\<close>

lemma lit_simps: "lit [] = []" "lit (c # s) = of_char c # lit s"
  by (simp_all add: lit_def)

subsection \<open>The source URL\<close>



subsection \<open>Evaluation on given inputs\<close>

lemma conforms_basic: "conforms basic_runtime"
  by (auto simp: conforms_def basic_runtime_def hangul_syllable_def ascii_decimal_def
        ascii_digit_def is_space_def split: if_splits)

lemma conforms_decimal: "conforms R \<Longrightarrow> c < 128 \<Longrightarrow> decimal R c = ascii_decimal c"
  by (simp add: conforms_def)

lemma conforms_normalize_key:
  assumes "conforms R" and "plain_text k"
  shows "normalize_key R k = filter (\<lambda>c. ascii_alnum c \<or> hangul_syllable c) (map ascii_lower k)"
proof -
  from assms have l: "str_lower R k = map ascii_lower k" by (simp add: conforms_def)
  have "\<And>c. c \<in> set (map ascii_lower k) \<Longrightarrow> isalnum R c = (ascii_alnum c \<or> hangul_syllable c)"
  proof -
    fix c assume "c \<in> set (map ascii_lower k)"
    then obtain b where b: "b \<in> set k" and c: "c = ascii_lower b" by auto
    from assms(2) b have "b < 128 \<or> hangul_syllable b" by (simp add: plain_text_def list_all_iff)
    then have "c < 128 \<or> hangul_syllable c"
      unfolding c by (auto simp: ascii_lower_def hangul_syllable_def)
    then show "isalnum R c = (ascii_alnum c \<or> hangul_syllable c)"
      using assms(1) by (auto simp: conforms_def ascii_alnum_def hangul_syllable_def ascii_digit_def)
  qed
  then show ?thesis unfolding normalize_key_def l by (intro filter_cong) auto
qed

lemmas csv_defs = csv_reader_def parse_reset_def parse_process_char_def start_field_def
  parse_save_field_def parse_add_char_def field_limit_def end_of_line_def after_line_def set_state_def

lemma aliases_simps:
  "aliases ''round'' = [lit ''round'', lit ''drawno'', lit ''drawnum'', lit ''draw'', [54924, 52264]]"
  "aliases ''date'' = [lit ''date'', lit ''drawdate'', [52628, 52392, 51068]]"
  "aliases ''num1'' = [lit ''num1'', lit ''n1'', lit ''no1'', [48264, 54840, 49]]"
  "aliases ''num2'' = [lit ''num2'', lit ''n2'', lit ''no2'', [48264, 54840, 50]]"
  "aliases ''num3'' = [lit ''num3'', lit ''n3'', lit ''no3'', [48264, 54840, 51]]"
  "aliases ''num4'' = [lit ''num4'', lit ''n4'', lit ''no4'', [48264, 54840, 52]]"
  "aliases ''num5'' = [lit ''num5'', lit ''n5'', lit ''no5'', [48264, 54840, 53]]"
  "aliases ''num6'' = [lit ''num6'', lit ''n6'', lit ''no6'', [48264, 54840, 54]]"
  "aliases ''bonus'' = [lit ''bonusnumber'', lit ''bonus'', [48372, 45320, 49828],
                  [48372, 45320, 49828, 48264, 54840]]"
  by (simp_all add: aliases_def FIELD_ALIASES_def)

lemma num_names: "map num_name [1..<7] = [''num1'', ''num2'', ''num3'', ''num4'', ''num5'', ''num6'']"
  by (simp add: num_name_def str_nat.simps upt_rec char_of_def bit_0)

lemma n_values_unfold:
  "map (\<lambda>i. pick_value row (aliases (num_name i))) [1..<7] =
   map (\<lambda>name. pick_value row (aliases name)) [''num1'', ''num2'', ''num3'', ''num4'', ''num5'', ''num6'']"
proof -
  have "map (\<lambda>i. pick_value row (aliases (num_name i))) [1..<7] =
        map (\<lambda>name. pick_value row (aliases name)) (map num_name [1..<7])"
    by (simp add: comp_def)
  then show ?thesis by (simp only: num_names)
qed

lemmas parse_row_eval = parse_row_def [unfolded Let_def n_values_unfold]

lemmas int_defs = py_int_def long_from_string_def digits_value_def c_isspace_def ascii_digit_def Let_def

lemma date_pattern_unfold:
  "date_pattern = Seq Caret (Seq (Seq Digit (Seq Digit (Seq Digit (Seq Digit Empty))))
     (Seq (Lit 46) (Seq (Seq Digit (Seq Digit Empty)) (Seq (Lit 46) (Seq (Seq Digit (Seq Digit Empty)) (Seq Dollar Empty))))))"
  by (simp add: date_pattern_def cat_def rep_def eval_nat_numeral)

lemma strptime_pattern_unfold:
  "strptime_pattern =
     Seq (Group ''Y'' (Seq Digit (Seq Digit (Seq Digit (Seq Digit Empty)))))
      (Seq (Lit 46)
        (Seq (Group ''m'' (Or (Seq (Lit 49) (Seq (Range 48 50) Empty))
                           (Or (Seq (Lit 48) (Seq (Range 49 57) Empty)) (Or (Range 49 57) Fail))))
          (Seq (Lit 46)
            (Seq (Group ''d'' (Or (Seq (Lit 51) (Seq (Range 48 49) Empty))
                               (Or (Seq (Range 49 50) (Seq Digit Empty))
                                 (Or (Seq (Lit 48) (Seq (Range 49 57) Empty))
                                   (Or (Range 49 57) (Or (Seq (Lit 32) (Seq (Range 49 57) Empty)) Fail))))))
              Empty))))"
  by (simp add: strptime_pattern_def cat_def alt_def)

lemmas date_defs = re_match_def date_pattern_unfold strptime_pattern_unfold strptime_def parse_date_def
  check_date_fields_def days_in_month_def DAYS_IN_MONTH_def is_leap_def ascii_decimal_def

lemmas row_defs = collect_draws_def splitlines_def is_linebreak_def csv_defs dict_row_def dict_zip_def
  parse_row_eval aliases_simps normalize_row_def conforms_normalize_key plain_text_def
  ascii_lower_def ascii_alnum_def hangul_syllable_def py_strip_def is_space_def
  falsy_def and_then_def parse_int_def date_defs int_defs lit_simps conforms_decimal

lemma example_lines:
  "splitlines example_csv =
     [lit ''round,date,num1,num2,num3,num4,num5,num6,bonusNumber'',
      lit ''1,2024.01.06,1,2,3,4,5,6,7'', lit ''2,2024.01.13,8,9,10,11,12,13,14'']"
  by (simp add: example_csv_def splitlines_def lit_simps is_linebreak_def)

lemma example_records:
  "csv_reader [lit ''round,date,num1,num2,num3,num4,num5,num6,bonusNumber'',
               lit ''1,2024.01.06,1,2,3,4,5,6,7'', lit ''2,2024.01.13,8,9,10,11,12,13,14''] =
     [Inr example_header,
      Inr (map lit [''1'', ''2024.01.06'', ''1'', ''2'', ''3'', ''4'', ''5'', ''6'', ''7'']),
      Inr (map lit [''2'', ''2024.01.13'', ''8'', ''9'', ''10'', ''11'', ''12'', ''13'', ''14''])]"
  by (simp add: example_header_def csv_defs lit_simps)

lemma example_rows:
  "dict_rows example_header
     [Inr (map lit [''1'', ''2024.01.06'', ''1'', ''2'', ''3'', ''4'', ''5'', ''6'', ''7'']),
      Inr (map lit [''2'', ''2024.01.13'', ''8'', ''9'', ''10'', ''11'', ''12'', ''13'', ''14''])] =
     [Inr \<lparr> cells = zip example_header (map (Some \<circ> lit)
               [''1'', ''2024.01.06'', ''1'', ''2'', ''3'', ''4'', ''5'', ''6'', ''7'']), rest = None \<rparr>,
      Inr \<lparr> cells = zip example_header (map (Some \<circ> lit)
               [''2'', ''2024.01.13'', ''8'', ''9'', ''10'', ''11'', ''12'', ''13'', ''14'']), rest = None \<rparr>]"
  by (simp add: example_header_def dict_row_def dict_zip_def lit_simps)

lemma example_row_1:
  assumes "conforms R"
  shows "parse_row R n \<lparr> cells = zip example_header (map (Some \<circ> lit)
           [''1'', ''2024.01.06'', ''1'', ''2'', ''3'', ''4'', ''5'', ''6'', ''7'']), rest = None \<rparr> =
         Inr (Some example_first)"
  using assms by (simp add: example_header_def example_first_def row_defs)

lemma example_row_2:
  assumes "conforms R"
  shows "parse_row R n \<lparr> cells = zip example_header (map (Some \<circ> lit)
           [''2'', ''2024.01.13'', ''8'', ''9'', ''10'', ''11'', ''12'', ''13'', ''14'']), rest = None \<rparr> =
         Inr (Some example_latest)"
  using assms by (simp add: example_header_def example_latest_def row_defs)

lemma example_collect:
  assumes "conforms R"
  shows "collect_draws R example_csv = Inr [example_first, example_latest]"
  unfolding collect_draws_def example_lines example_records
  using example_rows example_row_1 [OF assms] example_row_2 [OF assms]
  by (simp add: example_header_def)

lemma example_file:
  "json_dumps (draw_items example_latest) @ [10] = example_json"
  by (simp add: json_dumps_def draw_items_def encode_basestring_def encode_value_def escape_char_def
       str_int_def str_nat.simps example_json_def example_latest_def lit_simps)

lemma unsorted_collect:
  assumes "conforms R"
  shows "collect_draws R unsorted_csv = Inr unsorted_draws"
  using assms by (simp add: unsorted_csv_def unsorted_draws_def row_defs)

subsection \<open>Rows and the loop over them\<close>

lemma pick_value_Some:
  "pick_value row als = Some v \<Longrightarrow> v \<noteq> [] \<and> (\<exists>a\<in>set als. map_of row a = Some v)"
  by (induction als) (auto split: option.splits if_splits)

lemma pick_value_None:
  "pick_value row als = None \<longleftrightarrow> (\<forall>a\<in>set als. map_of row a = None \<or> map_of row a = Some [])"
  by (induction als) (auto split: option.splits)

lemma falsy_pick_value: "falsy (pick_value row als) \<longleftrightarrow> pick_value row als = None"
  by (auto simp: falsy_def dest: pick_value_Some)

lemma normalize_fold_source:
  assumes "map_of (fold (\<lambda>(key, value) row.
             if key = [] then row
             else AList.update (normalize_key R key)
                    (py_strip (case value of None \<Rightarrow> [] | Some v \<Rightarrow> v)) row) cs acc) k = Some v"
  shows "map_of acc k = Some v \<or>
         (\<exists>(key, value)\<in>set cs. key \<noteq> [] \<and> normalize_key R key = k \<and>
            v = py_strip (case value of None \<Rightarrow> [] | Some v \<Rightarrow> v))"
  using assms
proof (induction cs arbitrary: acc)
  case Nil
  then show ?case by simp
next
  case (Cons c cs)
  obtain key val where c: "c = (key, val)" by (cases c)
  show ?case
  proof (cases "key = []")
    case True
    with Cons.prems c Cons.IH [of acc] show ?thesis by auto
  next
    case False
    with Cons.prems c
    have "map_of (fold (\<lambda>(key, value) row.
             if key = [] then row
             else AList.update (normalize_key R key)
                    (py_strip (case value of None \<Rightarrow> [] | Some v \<Rightarrow> v)) row) cs
             (AList.update (normalize_key R key)
                    (py_strip (case val of None \<Rightarrow> [] | Some v \<Rightarrow> v)) acc)) k = Some v"
      by simp
    from Cons.IH [OF this] show ?thesis
      using False c by (auto simp: update_conv' split: if_splits)
  qed
qed

lemma normalize_row_source:
  assumes "map_of (normalize_row R raw_row) k = Some v"
  shows "\<exists>(key, value)\<in>set (cells raw_row). key \<noteq> [] \<and> normalize_key R key = k \<and>
            v = py_strip (case value of None \<Rightarrow> [] | Some v \<Rightarrow> v)"
  using normalize_fold_source [of R "cells raw_row" "[]" k v] assms
  by (simp add: normalize_row_def)

lemma parse_row_blank:
  "falsy (pick_value (normalize_row R raw_row) (aliases ''round'')) \<Longrightarrow>
     parse_row R row_num raw_row = Inr None"
  by (simp add: parse_row_def Let_def)

lemma rows_loop_first_error:
  "rows_ok R n pre \<Longrightarrow> parse_row R (n + length pre) raw_row = Inl e \<Longrightarrow>
     rows_loop R n (pre @ Inr raw_row # rows) draws = Inl e"
proof (induction pre arbitrary: n draws)
  case Nil
  then show ?case by simp
next
  case (Cons r pre)
  show ?case
  proof (cases r)
    case (Inl c)
    with Cons.prems show ?thesis by simp
  next
    case (Inr raw)
    with Cons.prems obtain d where d: "parse_row R n raw = Inr d" and ok: "rows_ok R (Suc n) pre"
      by (auto split: sum.splits)
    from Cons.prems have "parse_row R (Suc n + length pre) raw_row = Inl e" by simp
    from Cons.IH [OF ok this] d Inr show ?thesis
      by (cases d) simp_all
  qed
qed

lemma rows_loop_all_blank:
  "all_blank R rows \<Longrightarrow> rows_loop R n rows draws = Inr draws"
proof (induction rows arbitrary: n)
  case Nil
  then show ?case by simp
next
  case (Cons r rows)
  then show ?case
    by (cases r) (simp_all add: all_blank_def parse_row_blank)
qed

lemma parse_draws_first_error:
  assumes "csv_reader (splitlines csv_text) = Inr fieldnames # records" and "fieldnames \<noteq> []"
    and "dict_rows fieldnames records = pre @ Inr raw_row # rows"
    and "rows_ok R 2 pre" and "parse_row R (length pre + 2) raw_row = Inl e"
  shows "parse_draws R csv_text = Inl e"
proof -
  from assms(5) have "parse_row R (2 + length pre) raw_row = Inl e" by (simp add: add.commute)
  from rows_loop_first_error [OF assms(4) this]
  have "rows_loop R 2 (pre @ Inr raw_row # rows) [] = Inl e" .
  with assms(1-3) show ?thesis
    by (simp add: parse_draws_def collect_draws_def)
qed

lemma sorted_le_last:
  fixes xs :: "int list"
  shows "sorted xs \<Longrightarrow> x \<in> set xs \<Longrightarrow> x \<le> last xs"
  by (induction xs) auto

lemma sort_key_last_Max:
  fixes f :: "'a \<Rightarrow> int"
  assumes "xs \<noteq> []"
  shows "f (last (sort_key f xs)) = Max (f ` set xs)"
proof -
  let ?ys = "sort_key f xs"
  from assms have ne: "?ys \<noteq> []" by (metis length_0_conv length_sort)
  have s: "sorted (map f ?ys)" by (rule sorted_sort_key)
  have "f (last ?ys) = last (map f ?ys)" using ne by (simp add: last_map)
  also have "\<dots> = Max (set (map f ?ys))"
  proof (rule sym, rule Max_eqI)
    show "finite (set (map f ?ys))" by simp
    fix y assume "y \<in> set (map f ?ys)"
    then show "y \<le> last (map f ?ys)" using s by (simp add: sorted_le_last)
  next
    show "last (map f ?ys) \<in> set (map f ?ys)" using ne by (intro last_in_set) simp
  qed
  also have "set (map f ?ys) = f ` set xs" by simp
  finally show ?thesis .
qed

lemma blank_round_parse_row:
  assumes "\<forall>(key, value)\<in>set (cells raw_row).
             key \<noteq> [] \<and> normalize_key R key \<in> set (aliases ''round'') \<longrightarrow>
             py_strip (case value of None \<Rightarrow> [] | Some v \<Rightarrow> v) = []"
  shows "parse_row R row_num raw_row = Inr None"
proof -
  have "pick_value (normalize_row R raw_row) (aliases ''round'') = None"
    unfolding pick_value_None
  proof
    fix a assume a: "a \<in> set (aliases ''round'')"
    show "map_of (normalize_row R raw_row) a = None \<or> map_of (normalize_row R raw_row) a = Some []"
    proof (cases "map_of (normalize_row R raw_row) a")
      case None
      then show ?thesis by simp
    next
      case (Some v)
      from normalize_row_source [OF Some] a assms have "v = []" by fastforce
      with Some show ?thesis by simp
    qed
  qed
  then show ?thesis
    by (simp add: parse_row_blank falsy_def)
qed

text \<open>
  C7. A data row whose round value is absent, empty or made of blanks only is passed over: when
  every cell under a header that normalises to an alias of the round is \<^verbatim>\<open>None\<close> or blank,
  the body of the loop produces neither a draw nor an error, whatever the other cells hold,
  and the loop goes on with the next row and the draws it had.
\<close>

theorem blank_round_row_is_skipped:
  assumes "\<forall>(key, value)\<in>set (cells raw_row).
             key \<noteq> [] \<and> normalize_key R key \<in> set (aliases ''round'') \<longrightarrow>
             py_strip (case value of None \<Rightarrow> [] | Some v \<Rightarrow> v) = []"
  shows "parse_row R row_num raw_row = Inr None \<and>
         rows_loop R row_num (Inr raw_row # rows) draws = rows_loop R (Suc row_num) rows draws"
  using blank_round_parse_row [OF assms] by simp

theorem blank_round_row_is_skipped_witness:
  "parse_row basic_runtime 3 blank_round_row = Inr None \<and>
   rows_loop basic_runtime 3 [Inr blank_round_row] [example_first] = Inr [example_first]"
proof -
  have "\<forall>(key, value)\<in>set (cells blank_round_row).
          key \<noteq> [] \<and> normalize_key basic_runtime key \<in> set (aliases ''round'') \<longrightarrow>
          py_strip (case value of None \<Rightarrow> [] | Some v \<Rightarrow> v) = []"
    using conforms_basic
    by (simp add: blank_round_row_def aliases_simps conforms_normalize_key plain_text_def
          ascii_lower_def ascii_alnum_def ascii_digit_def hangul_syllable_def lit_simps
          py_strip_def is_space_def)
  from blank_round_row_is_skipped [OF this, of 3 "[]" "[example_first]"] show ?thesis
    by simp
qed

text \<open>
  C8. When the CSV has a header and the reader yields no row with a round value (no rows, or
  rows with a blank round cell only), \<^verbatim>\<open>parse_draws\<close> fails with the error for no valid rows;
  \<^verbatim>\<open>main\<close> then fails with it too, so it returns no files: nothing is written.
\<close>

theorem no_nonblank_rows_is_empty_result:
  assumes "csv_reader (splitlines csv_text) = Inr fieldnames # records" and "fieldnames \<noteq> []"
    and "all_blank R (dict_rows fieldnames records)"
  shows "parse_draws R csv_text = Inl NoValidRows \<and>
         (get_csv_source_url env = Inr url \<and> fetch_csv_text url = Inr csv_text \<longrightarrow>
            main R env fetch_csv_text fs = Inl NoValidRows)"
proof -
  from assms have "collect_draws R csv_text = Inr []"
    by (simp add: collect_draws_def rows_loop_all_blank)
  then have "parse_draws R csv_text = Inl NoValidRows"
    by (simp add: parse_draws_def)
  then show ?thesis by (simp add: main_def and_then_def)
qed

lemma blank_rounds_records:
  "csv_reader (splitlines blank_rounds_csv) =
     [Inr [lit ''round'', lit ''date''], Inr [lit '' '', lit ''2024.01.06''], Inr [[], lit ''x'']]"
  by (simp add: blank_rounds_csv_def splitlines_def is_linebreak_def csv_defs lit_simps)

theorem no_nonblank_rows_is_empty_result_witness:
  "parse_draws basic_runtime blank_rounds_csv = Inl NoValidRows \<and>
   main basic_runtime env_empty_url (\<lambda>url. Inr blank_rounds_csv) (\<lambda>path. None) = Inl NoValidRows"
proof -
  have b: "all_blank basic_runtime
             (dict_rows [lit ''round'', lit ''date''] [Inr [lit '' '', lit ''2024.01.06''], Inr [[], lit ''x'']])"
    using conforms_basic
    by (simp add: all_blank_def dict_row_def dict_zip_def aliases_simps normalize_row_def
          conforms_normalize_key plain_text_def ascii_lower_def ascii_alnum_def ascii_digit_def
          hangul_syllable_def py_strip_def is_space_def falsy_def lit_simps)
  have u: "get_csv_source_url env_empty_url = Inr (export_url (lit ''abc'') (lit ''0''))"
    by (simp add: get_csv_source_url_def env_empty_url_def getenv_default_def lit_simps)
  from no_nonblank_rows_is_empty_result [OF blank_rounds_records _ b,
      of env_empty_url "export_url (lit ''abc'') (lit ''0'')" "\<lambda>url. Inr blank_rounds_csv"
         "\<lambda>path. None"] u
  show ?thesis by simp
qed

text \<open>
  C2. Whenever at least one draw is parsed, \<^verbatim>\<open>parse_draws\<close> returns the parsed draws sorted by
  round in ascending order, and the last of them, which is the draw that \<^verbatim>\<open>write_outputs\<close>
  writes, has the greatest round of all parsed draws.
\<close>

theorem latest_draw_by_round:
  assumes "collect_draws R csv_text = Inr parsed" and "parsed \<noteq> []"
  shows "\<exists>draws. parse_draws R csv_text = Inr draws \<and> mset draws = mset parsed \<and>
           sorted (map round_no draws) \<and>
           round_no (last draws) = Max (round_no ` set parsed) \<and>
           write_outputs draws fs = Inr (write_json ''lotto.json'' (draw_items (last draws)) fs)"
proof -
  let ?draws = "sort_key round_no parsed"
  from assms have "parse_draws R csv_text = Inr ?draws" by (simp add: parse_draws_def)
  moreover have "mset ?draws = mset parsed" by simp
  moreover have "sorted (map round_no ?draws)" by (rule sorted_sort_key)
  moreover have "round_no (last ?draws) = Max (round_no ` set parsed)"
    using assms(2) by (rule sort_key_last_Max)
  moreover have "?draws \<noteq> []" using assms(2) by (metis length_0_conv length_sort)
  then have "write_outputs ?draws fs = Inr (write_json ''lotto.json'' (draw_items (last ?draws)) fs)"
    by (simp add: write_outputs_def)
  ultimately show ?thesis by (intro exI [of _ "?draws"]) simp
qed

theorem latest_draw_by_round_witness:
  "\<exists>draws. parse_draws basic_runtime unsorted_csv = Inr draws \<and>
           map round_no draws = [5, 7] \<and> round_no (last draws) = 7"
proof -
  have c: "collect_draws basic_runtime unsorted_csv = Inr unsorted_draws"
    by (rule unsorted_collect [OF conforms_basic])
  have n: "unsorted_draws \<noteq> []" by (simp add: unsorted_draws_def)
  from latest_draw_by_round [OF c n, of "\<lambda>p. None"]
  obtain draws where d: "parse_draws basic_runtime unsorted_csv = Inr draws"
    and m: "mset draws = mset unsorted_draws" and s: "sorted (map round_no draws)"
    and l: "round_no (last draws) = Max (round_no ` set unsorted_draws)"
    by blast
  from c d have "draws = sort_key round_no unsorted_draws"
    by (simp add: parse_draws_def n)
  then have r: "map round_no draws = [5, 7]" by (simp add: unsorted_draws_def)
  from l have "round_no (last draws) = 7" by (simp add: unsorted_draws_def)
  with d r show ?thesis by (intro exI [of _ draws]) simp
qed

text \<open>
  C1. For the CSV text of the example (the header with \<^verbatim>\<open>bonusNumber\<close>, the rows of rounds 1
  and 2), parsing gives the two draws, the latest is the record of round 2 with the numbers 8
  to 13, bonus 14 and date 2024.01.13, and that record is written to \<^verbatim>\<open>lotto.json\<close> as the JSON
  object of the example.
\<close>

theorem example_csv_latest_draw:
  assumes "conforms R"
  shows "parse_draws R example_csv = Inr [example_first, example_latest] \<and>
         last [example_first, example_latest] =
           \<lparr> round_no = 2, num1 = 8, num2 = 9, num3 = 10, num4 = 11, num5 = 12, num6 = 13,
             bonus = 14, date = lit ''2024.01.13'' \<rparr> \<and>
         write_outputs [example_first, example_latest] fs =
           Inr (fs(''lotto.json'' := Some example_json)) \<and>
         (get_csv_source_url env = Inr url \<and> fetch_csv_text url = Inr example_csv \<longrightarrow>
            (\<exists>line. main R env fetch_csv_text fs = Inr (fs(''lotto.json'' := Some example_json), line)))"
proof -
  have p: "parse_draws R example_csv = Inr [example_first, example_latest]"
    using example_collect [OF assms]
    by (simp add: parse_draws_def example_first_def example_latest_def)
  have w: "write_outputs [example_first, example_latest] fs =
           Inr (fs(''lotto.json'' := Some example_json))"
    by (simp add: write_outputs_def write_json_def example_file)
  from p w show ?thesis
    by (simp add: main_def and_then_def example_latest_def)
qed

theorem example_csv_latest_draw_witness:
  "parse_draws basic_runtime example_csv = Inr [example_first, example_latest] \<and>
   write_outputs [example_first, example_latest] (\<lambda>path. None) =
     Inr ((\<lambda>path. None)(''lotto.json'' := Some example_json))"
  using example_csv_latest_draw [OF conforms_basic, of "\<lambda>path. None"] by blast

subsection \<open>Errors of a row\<close>

lemma and_then_Inl:
  "and_then x f = Inl e \<Longrightarrow> x = Inl e \<or> (\<exists>v. x = Inr v \<and> f v = Inl e)"
  by (cases x) (simp_all add: and_then_def)

lemma parse_int_error_row:
  "parse_int R value f n = Inl e \<Longrightarrow> value \<noteq> None \<Longrightarrow> error_row e = Some n"
  by (auto simp: parse_int_def split: option.splits)

lemma parse_date_error_row:
  "parse_date R value f n = Inl e \<Longrightarrow> value \<noteq> None \<Longrightarrow> error_row e = Some n"
  by (auto simp: parse_date_def split: option.splits if_splits)

lemma parse_row_missing:
  assumes "\<not> falsy (pick_value (normalize_row R raw_row) (aliases ''round''))"
    and "missing =
           (if falsy (pick_value (normalize_row R raw_row) (aliases ''date'')) then [''date''] else []) @
           (if falsy (pick_value (normalize_row R raw_row) (aliases ''bonus'')) then [''bonus''] else []) @
           (if \<exists>name\<in>set [''num1'', ''num2'', ''num3'', ''num4'', ''num5'', ''num6''].
                 falsy (pick_value (normalize_row R raw_row) (aliases name))
            then [''num1~num6''] else [])"
    and "missing \<noteq> []"
  shows "parse_row R row_num raw_row = Inl (MissingFields row_num missing)"
proof -
  have "parse_row R row_num raw_row =
          (if missing \<noteq> [] then Inl (MissingFields row_num missing)
           else parse_row R row_num raw_row)"
    using assms(1) unfolding assms(2) parse_row_eval
    by (simp add: list_ex_iff)
  with assms(3) show ?thesis by simp
qed

lemma parse_row_error_row:
  assumes "parse_row R row_num raw_row = Inl e"
  shows "error_row e = Some row_num"
proof -
  let ?row = "normalize_row R raw_row"
  let ?n = "map (\<lambda>name. pick_value ?row (aliases name))
              [''num1'', ''num2'', ''num3'', ''num4'', ''num5'', ''num6'']"
  from assms have nb: "\<not> falsy (pick_value ?row (aliases ''round''))"
    by (auto simp: parse_row_eval)
  show ?thesis
  proof (cases "falsy (pick_value ?row (aliases ''date'')) \<or>
                falsy (pick_value ?row (aliases ''bonus'')) \<or> list_ex falsy ?n")
    case True
    with assms nb show ?thesis
      by (auto simp: parse_row_eval split: if_splits)
  next
    case False
    then have some: "pick_value ?row (aliases ''date'') \<noteq> None"
      "pick_value ?row (aliases ''bonus'') \<noteq> None"
      "pick_value ?row (aliases ''num1'') \<noteq> None" "pick_value ?row (aliases ''num2'') \<noteq> None"
      "pick_value ?row (aliases ''num3'') \<noteq> None" "pick_value ?row (aliases ''num4'') \<noteq> None"
      "pick_value ?row (aliases ''num5'') \<noteq> None" "pick_value ?row (aliases ''num6'') \<noteq> None"
      by (auto simp: falsy_def)
    from nb have r: "pick_value ?row (aliases ''round'') \<noteq> None" by (simp add: falsy_def)
    from assms nb False
    have "and_then (parse_int R (pick_value ?row (aliases ''round'')) ''round'' row_num) (\<lambda>v_round.
          and_then (parse_int R (?n ! 0) ''num1'' row_num) (\<lambda>v_num1.
          and_then (parse_int R (?n ! 1) ''num2'' row_num) (\<lambda>v_num2.
          and_then (parse_int R (?n ! 2) ''num3'' row_num) (\<lambda>v_num3.
          and_then (parse_int R (?n ! 3) ''num4'' row_num) (\<lambda>v_num4.
          and_then (parse_int R (?n ! 4) ''num5'' row_num) (\<lambda>v_num5.
          and_then (parse_int R (?n ! 5) ''num6'' row_num) (\<lambda>v_num6.
          and_then (parse_int R (pick_value ?row (aliases ''bonus'')) ''bonus'' row_num) (\<lambda>v_bonus.
          and_then (parse_date R (pick_value ?row (aliases ''date'')) ''date'' row_num) (\<lambda>v_date.
          Inr (Some \<lparr> round_no = v_round, num1 = v_num1, num2 = v_num2, num3 = v_num3,
                      num4 = v_num4, num5 = v_num5, num6 = v_num6, bonus = v_bonus,
                      date = v_date \<rparr>)))))))))) = Inl e"
      unfolding parse_row_eval by (simp split: if_splits)
    then consider
        "parse_int R (pick_value ?row (aliases ''round'')) ''round'' row_num = Inl e"
      | "parse_int R (pick_value ?row (aliases ''num1'')) ''num1'' row_num = Inl e"
      | "parse_int R (pick_value ?row (aliases ''num2'')) ''num2'' row_num = Inl e"
      | "parse_int R (pick_value ?row (aliases ''num3'')) ''num3'' row_num = Inl e"
      | "parse_int R (pick_value ?row (aliases ''num4'')) ''num4'' row_num = Inl e"
      | "parse_int R (pick_value ?row (aliases ''num5'')) ''num5'' row_num = Inl e"
      | "parse_int R (pick_value ?row (aliases ''num6'')) ''num6'' row_num = Inl e"
      | "parse_int R (pick_value ?row (aliases ''bonus'')) ''bonus'' row_num = Inl e"
      | "parse_date R (pick_value ?row (aliases ''date'')) ''date'' row_num = Inl e"
      by (auto dest!: and_then_Inl)
    then show ?thesis
      using some r by cases (auto dest: parse_int_error_row parse_date_error_row)
  qed
qed

lemma rows_loop_error_source:
  assumes "rows_loop R n rows draws = Inl e" and "error_row e \<noteq> None"
  shows "\<exists>i raw_row. i < length rows \<and> rows ! i = Inr raw_row \<and>
           parse_row R (n + i) raw_row = Inl e \<and> rows_ok R n (take i rows)"
  using assms
proof (induction rows arbitrary: n draws)
  case Nil
  then show ?case by simp
next
  case (Cons r rows)
  show ?case
  proof (cases r)
    case (Inl c)
    with Cons.prems show ?thesis by auto
  next
    case (Inr raw)
    show ?thesis
    proof (cases "parse_row R n raw")
      case (Inl e')
      with Cons.prems Inr have "e' = e" by simp
      with Inl Inr show ?thesis by (intro exI [of _ 0] exI [of _ raw]) simp
    next
      case d: (Inr d)
      from Cons.prems Inr d obtain draws' where "rows_loop R (Suc n) rows draws' = Inl e"
        by (cases d) auto
      from Cons.IH [OF this Cons.prems(2)] obtain i raw_row where
        i: "i < length rows" "rows ! i = Inr raw_row" "parse_row R (Suc n + i) raw_row = Inl e"
           "rows_ok R (Suc n) (take i rows)"
        by blast
      with Inr d show ?thesis
        by (intro exI [of _ "Suc i"] exI [of _ raw_row]) simp
    qed
  qed
qed

lemma parse_draws_error_at:
  assumes "csv_reader (splitlines csv_text) = Inr fieldnames # records" and "fieldnames \<noteq> []"
    and "dict_rows fieldnames records = pre @ Inr raw_row # rows"
    and "rows_ok R 2 pre" and "n = length pre + 2" and "parse_row R n raw_row = Inl e"
  shows "parse_draws R csv_text = Inl e"
  using parse_draws_first_error [OF assms(1-4)] assms(5,6) by simp

text \<open>
  C6. For a row with a round value, when the date, the bonus or one of the six numbers is absent
  or empty, the body of the loop fails with the error of missing fields for that row number,
  and the list names every missing field: \<^verbatim>\<open>date\<close>, \<^verbatim>\<open>bonus\<close>, and \<^verbatim>\<open>num1~num6\<close> once when
  any number is missing. The run fails with that error when the rows before pass. A row that
  lacks only the bonus names \<^verbatim>\<open>bonus\<close> alone.
\<close>

theorem missing_fields_are_all_listed:
  assumes "row = normalize_row R raw_row"
    and "\<not> falsy (pick_value row (aliases ''round''))"
    and "no_date \<longleftrightarrow> falsy (pick_value row (aliases ''date''))"
    and "no_bonus \<longleftrightarrow> falsy (pick_value row (aliases ''bonus''))"
    and "no_number \<longleftrightarrow>
           (\<exists>name\<in>set [''num1'', ''num2'', ''num3'', ''num4'', ''num5'', ''num6''].
              falsy (pick_value row (aliases name)))"
    and "no_date \<or> no_bonus \<or> no_number"
    and "missing = (if no_date then [''date''] else []) @ (if no_bonus then [''bonus''] else []) @
                   (if no_number then [''num1~num6''] else [])"
  shows "parse_row R row_num raw_row = Inl (MissingFields row_num missing) \<and>
         (csv_reader (splitlines csv_text) = Inr fieldnames # records \<and> fieldnames \<noteq> [] \<and>
          dict_rows fieldnames records = pre @ Inr raw_row # rows \<and> rows_ok R 2 pre \<and>
          row_num = length pre + 2 \<longrightarrow>
            parse_draws R csv_text = Inl (MissingFields row_num missing)) \<and>
         (no_bonus \<and> \<not> no_date \<and> \<not> no_number \<longrightarrow> missing = [''bonus''])"
proof -
  have m: "missing \<noteq> []" using assms(6,7) by auto
  have p: "\<And>k. parse_row R k raw_row = Inl (MissingFields k missing)"
    by (rule parse_row_missing [OF _ _ m]) (use assms in auto)
  have "parse_draws R csv_text = Inl (MissingFields row_num missing)"
    if "csv_reader (splitlines csv_text) = Inr fieldnames # records" "fieldnames \<noteq> []"
       "dict_rows fieldnames records = pre @ Inr raw_row # rows" "rows_ok R 2 pre"
       "row_num = length pre + 2"
    using parse_draws_first_error [OF that(1-4), of "MissingFields row_num missing"] p that(5)
    by simp
  with p assms(7) show ?thesis by auto
qed

lemma no_bonus_records:
  "csv_reader (splitlines no_bonus_csv) =
     [Inr no_bonus_header,
      Inr (map lit [''3'', ''2024.01.20'', ''1'', ''2'', ''3'', ''4'', ''5'', ''6'', ''''])]"
  by (simp add: no_bonus_csv_def no_bonus_header_def splitlines_def is_linebreak_def csv_defs lit_simps)

lemma no_bonus_rows:
  "dict_rows no_bonus_header
     [Inr (map lit [''3'', ''2024.01.20'', ''1'', ''2'', ''3'', ''4'', ''5'', ''6'', ''''])] =
     [Inr no_bonus_row]"
  by (simp add: no_bonus_row_def no_bonus_header_def dict_row_def dict_zip_def lit_simps)

lemma no_bonus_normalized:
  "normalize_row basic_runtime no_bonus_row =
     zip no_bonus_header (map lit [''3'', ''2024.01.20'', ''1'', ''2'', ''3'', ''4'', ''5'', ''6'', ''''])"
  using conforms_basic
  by (simp add: no_bonus_row_def no_bonus_header_def normalize_row_def conforms_normalize_key
        plain_text_def ascii_lower_def ascii_alnum_def ascii_digit_def hangul_syllable_def
        py_strip_def is_space_def lit_simps)

lemma no_bonus_round:
  "\<not> falsy (pick_value (normalize_row basic_runtime no_bonus_row) (aliases ''round''))"
  unfolding no_bonus_normalized
  by (simp add: no_bonus_header_def aliases_simps falsy_def lit_simps)

lemma no_bonus_missing:
  "[''bonus''] =
     (if falsy (pick_value (normalize_row basic_runtime no_bonus_row) (aliases ''date''))
      then [''date''] else []) @
     (if falsy (pick_value (normalize_row basic_runtime no_bonus_row) (aliases ''bonus''))
      then [''bonus''] else []) @
     (if \<exists>name\<in>set [''num1'', ''num2'', ''num3'', ''num4'', ''num5'', ''num6''].
           falsy (pick_value (normalize_row basic_runtime no_bonus_row) (aliases name))
      then [''num1~num6''] else [])"
  unfolding no_bonus_normalized
  by (simp add: no_bonus_header_def aliases_simps falsy_def lit_simps)

lemma no_bonus_parse_row:
  "parse_row basic_runtime k no_bonus_row = Inl (MissingFields k [''bonus''])"
  by (rule parse_row_missing [OF no_bonus_round no_bonus_missing]) simp

lemma blank_then_bad_records:
  "csv_reader (splitlines blank_then_bad_csv) =
     [Inr no_bonus_header, Inr [[], [], [], [], [], [], [], [], [] ],
      Inr (map lit [''3'', ''2024.01.20'', ''1'', ''2'', ''3'', ''4'', ''5'', ''6'', [] ])]"
  by (simp add: blank_then_bad_csv_def no_bonus_header_def splitlines_def is_linebreak_def csv_defs
        lit_simps)

lemma blank_then_bad_rows:
  "dict_rows no_bonus_header
     [Inr [[], [], [], [], [], [], [], [], [] ],
      Inr (map lit [''3'', ''2024.01.20'', ''1'', ''2'', ''3'', ''4'', ''5'', ''6'', [] ])] =
     [Inr blank_cells_row] @ Inr no_bonus_row # []"
  by (simp add: blank_cells_row_def no_bonus_row_def no_bonus_header_def dict_row_def dict_zip_def
        lit_simps)

lemma blank_cells_parse_row: "parse_row basic_runtime k blank_cells_row = Inr None"
  by (rule blank_round_parse_row)
     (simp add: blank_cells_row_def no_bonus_header_def py_strip_def lit_simps)

theorem missing_fields_are_all_listed_witness:
  "parse_row basic_runtime 2 no_bonus_row = Inl (MissingFields 2 [''bonus'']) \<and>
   parse_draws basic_runtime no_bonus_csv = Inl (MissingFields 2 [''bonus''])"
proof -
  let ?row = "normalize_row basic_runtime no_bonus_row"
  have h: "\<not> falsy (pick_value ?row (aliases ''round''))"
       "False \<longleftrightarrow> falsy (pick_value ?row (aliases ''date''))"
       "True \<longleftrightarrow> falsy (pick_value ?row (aliases ''bonus''))"
       "False \<longleftrightarrow> (\<exists>name\<in>set [''num1'', ''num2'', ''num3'', ''num4'', ''num5'', ''num6''].
                     falsy (pick_value ?row (aliases name)))"
    unfolding no_bonus_normalized
    by (simp_all add: no_bonus_header_def aliases_simps falsy_def lit_simps)
  have m: "[''bonus''] = (if False then [''date''] else []) @ (if True then [''bonus''] else []) @
                        (if False then [''num1~num6''] else [])"
    by simp
  have r: "dict_rows no_bonus_header
             [Inr (map lit [''3'', ''2024.01.20'', ''1'', ''2'', ''3'', ''4'', ''5'', ''6'', ''''])] =
           [] @ Inr no_bonus_row # []"
    unfolding no_bonus_rows by simp
  have any: "False \<or> True \<or> False" by simp
  note t = missing_fields_are_all_listed [where R = basic_runtime and raw_row = no_bonus_row
      and row_num = 2 and csv_text = no_bonus_csv and fieldnames = no_bonus_header
      and records = "[Inr (map lit [''3'', ''2024.01.20'', ''1'', ''2'', ''3'', ''4'', ''5'', ''6'', [] ])]"
      and pre = "[]" and rows = "[]", OF refl h any m]
  have c: "csv_reader (splitlines no_bonus_csv) =
             Inr no_bonus_header #
             [Inr (map lit [''3'', ''2024.01.20'', ''1'', ''2'', ''3'', ''4'', ''5'', ''6'', [] ])] \<and>
           no_bonus_header \<noteq> [] \<and>
           dict_rows no_bonus_header
             [Inr (map lit [''3'', ''2024.01.20'', ''1'', ''2'', ''3'', ''4'', ''5'', ''6'', [] ])] =
             [] @ Inr no_bonus_row # [] \<and>
           rows_ok basic_runtime 2 [] \<and> (2 :: nat) = length ([] :: (csv_error + raw_row) list) + 2"
    by (intro conjI no_bonus_records r) (simp_all add: no_bonus_header_def)
  from t c show ?thesis by blast
qed

text \<open>
  C9, as stated, fails: the loop numbers the rows with \<^verbatim>\<open>enumerate(reader, start=2)\<close>, so the
  first data row after the header is reported as row 2, not as row 1.
\<close>

theorem first_data_row_is_row_2:
  "dict_rows no_bonus_header
     [Inr (map lit [''3'', ''2024.01.20'', ''1'', ''2'', ''3'', ''4'', ''5'', ''6'', ''''])] ! 0 =
     Inr no_bonus_row \<and>
   parse_draws basic_runtime no_bonus_csv = Inl (MissingFields 2 [''bonus'']) \<and>
   error_row (MissingFields 2 [''bonus'']) = Some 2 \<and>
   error_row (MissingFields 2 [''bonus'']) \<noteq> Some (claimed_row_number 0)"
proof -
  have m: "[''bonus''] =
             (if falsy (pick_value (normalize_row basic_runtime no_bonus_row) (aliases ''date''))
              then [''date''] else []) @
             (if falsy (pick_value (normalize_row basic_runtime no_bonus_row) (aliases ''bonus''))
              then [''bonus''] else []) @
             (if \<exists>name\<in>set [''num1'', ''num2'', ''num3'', ''num4'', ''num5'', ''num6''].
                   falsy (pick_value (normalize_row basic_runtime no_bonus_row) (aliases name))
              then [''num1~num6''] else [])"
    unfolding no_bonus_normalized
    by (simp add: no_bonus_header_def aliases_simps falsy_def lit_simps)
  have n: "\<not> falsy (pick_value (normalize_row basic_runtime no_bonus_row) (aliases ''round''))"
    unfolding no_bonus_normalized
    by (simp add: no_bonus_header_def aliases_simps falsy_def lit_simps)
  have p: "parse_row basic_runtime 2 no_bonus_row = Inl (MissingFields 2 [''bonus''])"
    by (rule parse_row_missing [OF n m]) simp
  have r: "dict_rows no_bonus_header
             [Inr (map lit [''3'', ''2024.01.20'', ''1'', ''2'', ''3'', ''4'', ''5'', ''6'', [] ])] =
           [] @ Inr no_bonus_row # []"
    unfolding no_bonus_rows by simp
  have "parse_draws basic_runtime no_bonus_csv = Inl (MissingFields 2 [''bonus''])"
    by (rule parse_draws_error_at [OF no_bonus_records _ r _ _ p])
       (simp_all add: no_bonus_header_def)
  then show ?thesis unfolding no_bonus_rows by (simp add: claimed_row_number_def)
qed

text \<open>
  C9, amended. The error of a row names the number \<open>i + 2\<close> for the row at index \<open>i\<close> (from 0)
  among the rows the reader yields after the header: the header counts as row 1, the first
  data row is row 2. Rows passed over for a blank round are rows of that list and are counted.
  In both directions: the first row that fails gives the error of the run with its number,
  and an error of the run that names a row number comes from the row with that number.
\<close>

theorem row_errors_name_sheet_row:
  "(csv_reader (splitlines csv_text) = Inr fieldnames # records \<and> fieldnames \<noteq> [] \<and>
    dict_rows fieldnames records = pre @ Inr raw_row # rows \<and> rows_ok R 2 pre \<and>
    parse_row R (length pre + 2) raw_row = Inl e \<longrightarrow>
      parse_draws R csv_text = Inl e \<and> error_row e = Some (length pre + 2)) \<and>
   (parse_draws R csv_text = Inl e \<and> error_row e = Some n \<longrightarrow>
      (\<exists>fieldnames records i raw_row.
         csv_reader (splitlines csv_text) = Inr fieldnames # records \<and>
         i < length (dict_rows fieldnames records) \<and>
         dict_rows fieldnames records ! i = Inr raw_row \<and>
         rows_ok R 2 (take i (dict_rows fieldnames records)) \<and>
         parse_row R (i + 2) raw_row = Inl e \<and> n = i + 2))"
proof (intro conjI impI)
  assume a: "csv_reader (splitlines csv_text) = Inr fieldnames # records \<and> fieldnames \<noteq> [] \<and>
    dict_rows fieldnames records = pre @ Inr raw_row # rows \<and> rows_ok R 2 pre \<and>
    parse_row R (length pre + 2) raw_row = Inl e"
  then show "parse_draws R csv_text = Inl e" by (intro parse_draws_first_error) auto
  from a show "error_row e = Some (length pre + 2)" by (intro parse_row_error_row) auto
next
  assume a: "parse_draws R csv_text = Inl e \<and> error_row e = Some n"
  then have c: "collect_draws R csv_text = Inl e"
    by (auto simp: parse_draws_def split: sum.splits if_splits)
  then obtain fieldnames records where
    f: "csv_reader (splitlines csv_text) = Inr fieldnames # records"
    and l: "rows_loop R 2 (dict_rows fieldnames records) [] = Inl e"
    using a by (auto simp: collect_draws_def split: list.splits sum.splits if_splits)
  from a have "error_row e \<noteq> None" by simp
  from rows_loop_error_source [OF l this] obtain i raw_row where
    i: "i < length (dict_rows fieldnames records)" "dict_rows fieldnames records ! i = Inr raw_row"
       "parse_row R (2 + i) raw_row = Inl e" "rows_ok R 2 (take i (dict_rows fieldnames records))"
    by blast
  from i(3) have p: "parse_row R (i + 2) raw_row = Inl e" by (simp add: add.commute)
  from parse_row_error_row [OF p] a have "n = i + 2" by simp
  with f i p show "\<exists>fieldnames records i raw_row.
         csv_reader (splitlines csv_text) = Inr fieldnames # records \<and>
         i < length (dict_rows fieldnames records) \<and>
         dict_rows fieldnames records ! i = Inr raw_row \<and>
         rows_ok R 2 (take i (dict_rows fieldnames records)) \<and>
         parse_row R (i + 2) raw_row = Inl e \<and> n = i + 2"
    by blast
qed


theorem row_errors_name_sheet_row_witness:
  "parse_draws basic_runtime blank_then_bad_csv = Inl (MissingFields 3 [''bonus'']) \<and>
   error_row (MissingFields 3 [''bonus'']) = Some 3"
proof -
  have c: "csv_reader (splitlines blank_then_bad_csv) =
             Inr no_bonus_header #
             [Inr [[], [], [], [], [], [], [], [], [] ],
              Inr (map lit [''3'', ''2024.01.20'', ''1'', ''2'', ''3'', ''4'', ''5'', ''6'', [] ])] \<and>
           no_bonus_header \<noteq> [] \<and>
           dict_rows no_bonus_header
             [Inr [[], [], [], [], [], [], [], [], [] ],
              Inr (map lit [''3'', ''2024.01.20'', ''1'', ''2'', ''3'', ''4'', ''5'', ''6'', [] ])] =
             [Inr blank_cells_row] @ Inr no_bonus_row # [] \<and>
           rows_ok basic_runtime 2 [Inr blank_cells_row] \<and>
           parse_row basic_runtime (length [Inr blank_cells_row :: csv_error + raw_row] + 2)
             no_bonus_row = Inl (MissingFields 3 [''bonus''])"
    by (intro conjI blank_then_bad_records blank_then_bad_rows)
       (simp_all add: no_bonus_header_def blank_cells_parse_row no_bonus_parse_row)
  from row_errors_name_sheet_row [where R = basic_runtime and csv_text = blank_then_bad_csv
      and fieldnames = no_bonus_header and pre = "[Inr blank_cells_row]" and raw_row = no_bonus_row
      and rows = "[]" and e = "MissingFields 3 [''bonus'']"
      and records = "[Inr [[], [], [], [], [], [], [], [], [] ],
              Inr (map lit [''3'', ''2024.01.20'', ''1'', ''2'', ''3'', ''4'', ''5'', ''6'', [] ])]"] c
  show ?thesis by simp
qed

subsection \<open>Headers and aliases\<close>


lemma ascii_lower_idem: "ascii_lower (ascii_lower c) = ascii_lower c"
  by (auto simp: ascii_lower_def)


lemma plain_text_map_lower: "plain_text k \<Longrightarrow> plain_text (map ascii_lower k)"
  by (auto simp: plain_text_def list_all_iff ascii_lower_def hangul_syllable_def)

lemma plain_text_filter: "plain_text k \<Longrightarrow> plain_text (filter P k)"
  by (auto simp: plain_text_def list_all_iff)

lemma alnum_lower:
  "(ascii_alnum (ascii_lower c) \<or> hangul_syllable (ascii_lower c)) \<longleftrightarrow>
   (ascii_alnum c \<or> hangul_syllable c)"
  by (auto simp: ascii_lower_def ascii_alnum_def ascii_digit_def hangul_syllable_def)




lemma normalize_key_idem:
  assumes "conforms R" and "plain_text k"
  shows "normalize_key R (normalize_key R k) = normalize_key R k"
proof -
  have p: "plain_text (filter (\<lambda>c. ascii_alnum c \<or> hangul_syllable c) (map ascii_lower k))"
    using assms(2) by (simp add: plain_text_filter plain_text_map_lower)
  show ?thesis
    using assms p
    by (simp add: conforms_normalize_key filter_map comp_def alnum_lower ascii_lower_idem)
qed







end
